theory Spec2Isabelle
  imports Main "HOL-Library.Multiset" "HOL-Library.Sublist" "HOL-Library.Word"
begin

section \<open>Candidate files and their identity signature\<close>

text \<open>
  A browser \<open>File\<close> as the validator reads it: \<open>name\<close>, \<open>size\<close> (bytes), \<open>type\<close>
  (the MIME string) and \<open>lastModified\<close> (epoch milliseconds). The fields \<open>size\<close> and
  \<open>type\<close> are called \<open>fsize\<close> and \<open>ftype\<close> here.
\<close>

record File =
  name :: string
  fsize :: nat
  ftype :: string
  lastModified :: int

text \<open>
  A template literal prints a whole number below \<open>2^53\<close> with exactly its decimal digits,
  which is what \<open>show_nat\<close> and \<open>show_int\<close> give. From \<open>2^53\<close> up a JavaScript number
  prints its shortest round-trip digits instead, so the model's signature text is the
  code's only for sizes and timestamps below \<open>2^53\<close>, as those of real files are.
\<close>

fun show_nat :: "nat \<Rightarrow> string" where
  "show_nat n =
     (if n < 10 then [''0123456789'' ! n]
      else show_nat (n div 10) @ [''0123456789'' ! (n mod 10)])"

declare show_nat.simps [simp del]

definition show_int :: "int \<Rightarrow> string" where
  "show_int i = (if i < 0 then ''-'' @ show_nat (nat (- i)) else show_nat (nat i))"

text \<open>\<^verbatim>\<open>`${file.name}|${file.size}|${file.type}|${file.lastModified}`\<close>\<close>

definition createFileSignature :: "File \<Rightarrow> string" where
  "createFileSignature f =
     name f @ ''|'' @ show_nat (fsize f) @ ''|'' @ ftype f @ ''|'' @ show_int (lastModified f)"

definition areFilesIdentical :: "File \<Rightarrow> File \<Rightarrow> bool" where
  "areFilesIdentical file1 file2 \<longleftrightarrow> createFileSignature file1 = createFileSignature file2"

section \<open>The validator\<close>

text \<open>
  The two reason strings pushed into \<open>invalid\<close>: \<^verbatim>\<open>`Tamanho excede ${maxFileSize}MB`\<close>
  is \<open>SizeExceeded m\<close> and the fixed type message is \<open>TypeNotAllowed\<close>.
\<close>

datatype reason = SizeExceeded nat | TypeNotAllowed

record FileValidationResult =
  validFiles :: "File list"
  duplicates :: "string list"
  invalid :: "(string \<times> reason) list"

text \<open>
  Every option is optional in the source; \<open>None\<close> is a field left out. \<open>maxFileSize\<close>
  is a number of mebibytes; the callers pass whole numbers.
\<close>

record FileValidationOptions =
  maxFileSize :: "nat option"
  allowedTypes :: "string list option"
  existingFiles :: "File list option"

text \<open>\<open>s.startsWith(p)\<close>.\<close>

fun startsWith :: "string \<Rightarrow> string \<Rightarrow> bool" where
  "startsWith s [] = True"
| "startsWith [] (c # p) = False"
| "startsWith (d # s) (c # p) = (d = c \<and> startsWith s p)"

text \<open>\<open>t.split('/')[0]\<close>: the text before the first slash, all of \<open>t\<close> when it has none.\<close>

definition split_head :: "string \<Rightarrow> string" where
  "split_head t = takeWhile (\<lambda>c. c \<noteq> CHR ''/'') t"

text \<open>The predicate handed to \<open>allowedTypes.some\<close>.\<close>

definition type_matches :: "string \<Rightarrow> string \<Rightarrow> bool" where
  "type_matches ft t \<longleftrightarrow> startsWith ft (split_head t) \<or> ft = t"

text \<open>
  The \<open>for\<close> loop of \<open>validateFiles\<close>: the remaining files, the set
  \<open>processedSignatures\<close> and the result under construction. Each \<open>continue\<close> is a
  recursive call on the rest.
\<close>

fun validateFiles_loop ::
  "nat \<Rightarrow> string list \<Rightarrow> string set \<Rightarrow> File list \<Rightarrow> string set \<Rightarrow>
   FileValidationResult \<Rightarrow> FileValidationResult" where
  "validateFiles_loop mx allowed existingSignatures [] processedSignatures result = result"
| "validateFiles_loop mx allowed existingSignatures (f # fs) processedSignatures result =
     (if fsize f > mx * 1024 * 1024 then
        validateFiles_loop mx allowed existingSignatures fs processedSignatures
          (result\<lparr>invalid := invalid result @ [(name f, SizeExceeded mx)]\<rparr>)
      else if \<not> list_ex (type_matches (ftype f)) allowed then
        validateFiles_loop mx allowed existingSignatures fs processedSignatures
          (result\<lparr>invalid := invalid result @ [(name f, TypeNotAllowed)]\<rparr>)
      else if createFileSignature f \<in> existingSignatures then
        validateFiles_loop mx allowed existingSignatures fs processedSignatures
          (result\<lparr>duplicates := duplicates result @ [name f]\<rparr>)
      else if createFileSignature f \<in> processedSignatures then
        validateFiles_loop mx allowed existingSignatures fs processedSignatures
          (result\<lparr>duplicates := duplicates result @ [name f]\<rparr>)
      else
        validateFiles_loop mx allowed existingSignatures fs
          (insert (createFileSignature f) processedSignatures)
          (result\<lparr>validFiles := validFiles result @ [f]\<rparr>))"

definition default_allowedTypes :: "string list" where
  "default_allowedTypes = [''image/png'', ''image/jpeg'', ''image/webp'', ''image/jpg'']"

definition opt_maxFileSize :: "FileValidationOptions \<Rightarrow> nat" where
  "opt_maxFileSize options = (case maxFileSize options of None \<Rightarrow> 5 | Some m \<Rightarrow> m)"

definition opt_allowedTypes :: "FileValidationOptions \<Rightarrow> string list" where
  "opt_allowedTypes options =
     (case allowedTypes options of None \<Rightarrow> default_allowedTypes | Some ts \<Rightarrow> ts)"

definition opt_existingFiles :: "FileValidationOptions \<Rightarrow> File list" where
  "opt_existingFiles options = (case existingFiles options of None \<Rightarrow> [] | Some fs \<Rightarrow> fs)"

definition empty_result :: FileValidationResult where
  "empty_result = \<lparr>validFiles = [], duplicates = [], invalid = []\<rparr>"

definition validateFiles :: "File list \<Rightarrow> FileValidationOptions \<Rightarrow> FileValidationResult" where
  "validateFiles files options =
     validateFiles_loop (opt_maxFileSize options) (opt_allowedTypes options)
       (set (map createFileSignature (opt_existingFiles options))) files {} empty_result"

section \<open>Content hash with fallback\<close>

text \<open>
  What can be thrown inside the \<open>try\<close> block of \<open>generateFileHash\<close>: reading the
  bytes (\<open>file.arrayBuffer()\<close>) or digesting them (\<open>crypto.subtle.digest\<close>) may reject.
  Both primitives are parameters of the model.
\<close>

datatype error = ReadFailed | DigestFailed

text \<open>\<open>b.toString(16)\<close> and \<open>.padStart(2, '0')\<close>.\<close>

fun toString16 :: "nat \<Rightarrow> string" where
  "toString16 n =
     (if n < 16 then [''0123456789abcdef'' ! n]
      else toString16 (n div 16) @ [''0123456789abcdef'' ! (n mod 16)])"

declare toString16.simps [simp del]

definition padStart2 :: "string \<Rightarrow> string" where
  "padStart2 s = replicate (2 - length s) CHR ''0'' @ s"

text \<open>The body of the \<open>try\<close> block: \<open>Inl\<close> is an exception thrown inside it.\<close>

definition generateFileHash_try ::
  "(File \<Rightarrow> error + 8 word list) \<Rightarrow> (8 word list \<Rightarrow> error + 8 word list) \<Rightarrow> File
   \<Rightarrow> error + string" where
  "generateFileHash_try arrayBuffer digest f =
     (case arrayBuffer f of
        Inl e \<Rightarrow> Inl e
      | Inr buffer \<Rightarrow>
          (case digest buffer of
             Inl e \<Rightarrow> Inl e
           | Inr hashBuffer \<Rightarrow>
               Inr (concat (map (\<lambda>b. padStart2 (toString16 (unat b))) hashBuffer))))"

text \<open>
  The whole function with its \<open>catch\<close>: \<open>Inl\<close> would be a rejected promise, \<open>Inr\<close> the
  string it resolves to.
\<close>

definition generateFileHash ::
  "(File \<Rightarrow> error + 8 word list) \<Rightarrow> (8 word list \<Rightarrow> error + 8 word list) \<Rightarrow> File
   \<Rightarrow> error + string" where
  "generateFileHash arrayBuffer digest f =
     (case generateFileHash_try arrayBuffer digest f of
        Inl e \<Rightarrow> Inr (createFileSignature f)
      | Inr h \<Rightarrow> Inr h)"

section \<open>Duplicates inside one array\<close>

text \<open>
  A JavaScript \<open>Map\<close> keeps its keys in insertion order: an association list with
  distinct keys. \<open>map_set\<close> is \<open>Map.prototype.set\<close>: an existing key keeps its place.
\<close>

fun map_set :: "('k \<times> 'v) list \<Rightarrow> 'k \<Rightarrow> 'v \<Rightarrow> ('k \<times> 'v) list" where
  "map_set [] k v = [(k, v)]"
| "map_set ((k', v') # m) k v = (if k' = k then (k, v) # m else (k', v') # map_set m k v)"

text \<open>The body of the first \<open>forEach\<close>.\<close>

definition signatureMap_add :: "(string \<times> File list) list \<Rightarrow> File \<Rightarrow> (string \<times> File list) list" where
  "signatureMap_add signatureMap f =
     map_set signatureMap (createFileSignature f)
       ((case map_of signatureMap (createFileSignature f) of None \<Rightarrow> [] | Some existing \<Rightarrow> existing)
        @ [f])"

text \<open>The body of the second \<open>forEach\<close>.\<close>

definition duplicates_add ::
  "(string \<times> File list) list \<Rightarrow> string \<times> File list \<Rightarrow> (string \<times> File list) list" where
  "duplicates_add dups entry =
     (if length (snd entry) > 1 then map_set dups (fst entry) (snd entry) else dups)"

definition findDuplicatesInArray :: "File list \<Rightarrow> (string \<times> File list) list" where
  "findDuplicatesInArray files = foldl duplicates_add [] (foldl signatureMap_add [] files)"

section \<open>File name helpers\<close>

text \<open>\<open>s.lastIndexOf(c)\<close>: the index of the last occurrence, \<open>-1\<close> when there is none.\<close>

fun lastIndexOf :: "string \<Rightarrow> char \<Rightarrow> int" where
  "lastIndexOf [] c = - 1"
| "lastIndexOf (d # s) c =
     (if 0 \<le> lastIndexOf s c then lastIndexOf s c + 1 else if d = c then 0 else - 1)"

text \<open>\<open>x >>> 0\<close>: the number as an unsigned 32-bit integer.\<close>

definition toUint32 :: "int \<Rightarrow> nat" where
  "toUint32 i = nat (i mod 2 ^ 32)"

text \<open>
  \<^verbatim>\<open>filename.slice((filename.lastIndexOf('.') - 1 >>> 0) + 2)\<close>; \<open>slice\<close> with a start
  beyond the end gives the empty string, as \<open>drop\<close> does.
\<close>

definition getFileExtension :: "string \<Rightarrow> string" where
  "getFileExtension filename = drop (toUint32 (lastIndexOf filename CHR ''.'' - 1) + 2) filename"

definition isImageFile :: "File \<Rightarrow> bool" where
  "isImageFile f = startsWith (ftype f) ''image/''"

section \<open>The image collection manager\<close>

datatype media_kind = ImageKind

text \<open>\<open>MediaItem\<close>; the fields \<open>id\<close> and \<open>file\<close> are \<open>item_id\<close> and \<open>item_file\<close>.\<close>

record MediaItem =
  item_id :: string
  url :: string
  item_file :: "File option"
  isFeatured :: bool
  mediaType :: media_kind

text \<open>The component's props next to \<open>images\<close> and \<open>onChange\<close>.\<close>

record Props =
  maxImages :: int
  maxFileSizeMB :: nat

definition default_props :: Props where
  "default_props = \<lparr>maxImages = 10, maxFileSizeMB = 5\<rparr>"

text \<open>
  The two sources of fresh names used while adding: the \<open>i\<close>-th call of \<open>uuidv4()\<close> and
  of \<open>URL.createObjectURL\<close> during one \<open>handleFileSelect\<close>.
\<close>

record Env =
  uuidv4 :: "nat \<Rightarrow> string"
  createObjectURL :: "nat \<Rightarrow> string"

text \<open>
  The notifications: one constructor for each \<open>toast\<close> call of \<open>handleFileSelect\<close>.
  \<open>Success\<close> carries the number of added files and their total size in bytes.
\<close>

datatype toast =
    InfoWait
  | ErrorLimit int
  | ErrorInvalid string reason
  | WarningDuplicates "string list"
  | ErrorNoValid
  | Success nat nat

text \<open>
  What one call of \<open>handleFileSelect\<close> does: the argument of its \<open>validateFiles\<close> call
  (\<open>None\<close> when the validator is not called), the toasts in order, the argument of
  \<open>onChange\<close> (\<open>None\<close> when it is not called) and \<open>processingQueueRef.current\<close> afterwards.
\<close>

record Outcome =
  validated :: "File list option"
  toasts :: "toast list"
  onChange :: "MediaItem list option"
  processingAfter :: bool

text \<open>\<open>xs.slice(0, e)\<close>: a negative end counts from the end of the array.\<close>

definition slice0 :: "'a list \<Rightarrow> int \<Rightarrow> 'a list" where
  "slice0 xs e = (if e < 0 then take (nat (int (length xs) + e)) xs else take (nat e) xs)"

text \<open>\<open>images.map(img => img.file).filter(f => f !== undefined)\<close>\<close>

definition existing_files :: "MediaItem list \<Rightarrow> File list" where
  "existing_files images = concat (map (\<lambda>img. case item_file img of None \<Rightarrow> [] | Some f \<Rightarrow> [f]) images)"

text \<open>The callback of \<open>validFiles.map\<close> that builds one new entry.\<close>

definition new_image :: "Env \<Rightarrow> MediaItem list \<Rightarrow> nat \<Rightarrow> File \<Rightarrow> MediaItem" where
  "new_image env images index f =
     \<lparr>item_id = ''new-'' @ uuidv4 env index,
      url = createObjectURL env index,
      item_file = Some f,
      isFeatured = (length images = 0 \<and> index = 0),
      mediaType = ImageKind\<rparr>"

definition new_images :: "Env \<Rightarrow> MediaItem list \<Rightarrow> File list \<Rightarrow> MediaItem list" where
  "new_images env images valid = map (\<lambda>(index, f). new_image env images index f) (enumerate 0 valid)"

definition manager_options :: "Props \<Rightarrow> MediaItem list \<Rightarrow> FileValidationOptions" where
  "manager_options props images =
     \<lparr>maxFileSize = Some (maxFileSizeMB props),
      allowedTypes = Some [''image/png'', ''image/jpeg'', ''image/webp'', ''image/jpg''],
      existingFiles = Some (existing_files images)\<rparr>"

text \<open>
  \<open>handleFileSelect(files)\<close> with the current \<open>images\<close> and the current value of
  \<open>processingQueueRef.current\<close>; \<open>files\<close> is \<open>None\<close> for \<open>null\<close>. The two early
  returns come before the \<open>try\<close>, so the \<open>finally\<close> block (which clears the flag)
  does not run for them. \<open>remainingSlots\<close> is negative when the collection is longer
  than \<open>maxImages\<close>, and \<open>slice\<close> then counts from the end of the batch. Nothing in the
  \<open>try\<close> block of the model throws, so the \<open>catch\<close> branch has no counterpart.
\<close>

definition handleFileSelect ::
  "Props \<Rightarrow> Env \<Rightarrow> MediaItem list \<Rightarrow> bool \<Rightarrow> File list option \<Rightarrow> Outcome" where
  "handleFileSelect props env images processing files =
     (case files of
        None \<Rightarrow> \<lparr>validated = None, toasts = [], onChange = None, processingAfter = processing\<rparr>
      | Some fl \<Rightarrow>
          if length fl = 0 then
            \<lparr>validated = None, toasts = [], onChange = None, processingAfter = processing\<rparr>
          else if processing then
            \<lparr>validated = None, toasts = [InfoWait], onChange = None, processingAfter = processing\<rparr>
          else
            (let remainingSlots = maxImages props - int (length images);
                 filesToAdd = slice0 fl remainingSlots
             in if length filesToAdd = 0 then
                  \<lparr>validated = None, toasts = [ErrorLimit (maxImages props)], onChange = None,
                   processingAfter = False\<rparr>
                else
                  (let validationResult = validateFiles filesToAdd (manager_options props images);
                       notes =
                         map (\<lambda>(n, r). ErrorInvalid n r) (invalid validationResult)
                         @ (if length (duplicates validationResult) > 0
                            then [WarningDuplicates (duplicates validationResult)] else [])
                   in if length (validFiles validationResult) = 0 then
                        \<lparr>validated = Some filesToAdd,
                         toasts = notes
                           @ (if length (invalid validationResult) = 0
                                 \<and> length (duplicates validationResult) = 0
                              then [ErrorNoValid] else []),
                         onChange = None, processingAfter = False\<rparr>
                      else
                        \<lparr>validated = Some filesToAdd,
                         toasts = notes
                           @ [Success (length (validFiles validationResult))
                                (sum_list (map fsize (validFiles validationResult)))],
                         onChange =
                           Some (images @ new_images env images (validFiles validationResult)),
                         processingAfter = False\<rparr>)))"

text \<open>\<open>setFeaturedImage(imageId)\<close>: the list handed to \<open>onChange\<close>.\<close>

definition setFeaturedImage :: "MediaItem list \<Rightarrow> string \<Rightarrow> MediaItem list" where
  "setFeaturedImage images imageId =
     map (\<lambda>img. img\<lparr>isFeatured := (item_id img = imageId)\<rparr>) images"

text \<open>
  \<open>removeImage(imageId)\<close>: the list handed to \<open>onChange\<close>. \<open>filter\<close> builds a new
  array of the same entry objects, and the assignment \<open>remainingImages[0].isFeatured = true\<close>
  sets the flag of its first entry.
\<close>

definition removeImage :: "MediaItem list \<Rightarrow> string \<Rightarrow> MediaItem list" where
  "removeImage images imageId =
     (let imageToRemove = find (\<lambda>img. item_id img = imageId) images;
          remainingImages = filter (\<lambda>img. item_id img \<noteq> imageId) images
      in if (case imageToRemove of None \<Rightarrow> False | Some img \<Rightarrow> isFeatured img)
            \<and> length remainingImages > 0
         then remainingImages[0 := (remainingImages ! 0)\<lparr>isFeatured := True\<rparr>]
         else remainingImages)"

subsection \<open>Sequences of operations\<close>

datatype op = AddFiles Env "File list" | Remove string | SetFeatured string

text \<open>
  One operation on the collection; \<open>addFiles\<close> is a complete \<open>handleFileSelect\<close> that
  starts with no other call in flight, and the collection changes only through
  \<open>onChange\<close>.
\<close>

fun step :: "Props \<Rightarrow> MediaItem list \<Rightarrow> op \<Rightarrow> MediaItem list" where
  "step props images (AddFiles env files) =
     (case onChange (handleFileSelect props env images False (Some files)) of
        None \<Rightarrow> images
      | Some images' \<Rightarrow> images')"
| "step props images (Remove imageId) = removeImage images imageId"
| "step props images (SetFeatured imageId) = setFeaturedImage images imageId"

definition run :: "Props \<Rightarrow> MediaItem list \<Rightarrow> op list \<Rightarrow> MediaItem list" where
  "run props images ops = foldl (step props) images ops"

definition featured_count :: "MediaItem list \<Rightarrow> nat" where
  "featured_count images = length (filter isFeatured images)"

text \<open>
  The conditions under which the operations are used by the component: the generated ids
  of an \<open>addFiles\<close> are new and pairwise different, and \<open>setFeatured\<close> is given the id of
  an entry of the collection (it is called from that entry's button).
\<close>

fun op_ok :: "MediaItem list \<Rightarrow> op \<Rightarrow> bool" where
  "op_ok images (AddFiles env files) =
     (distinct (map (uuidv4 env) [0..<length files])
      \<and> list_all (\<lambda>i. ''new-'' @ uuidv4 env i \<notin> set (map item_id images)) [0..<length files])"
| "op_ok images (Remove imageId) = True"
| "op_ok images (SetFeatured imageId) = (imageId \<in> set (map item_id images))"

fun ops_ok :: "Props \<Rightarrow> MediaItem list \<Rightarrow> op list \<Rightarrow> bool" where
  "ops_ok props images [] = True"
| "ops_ok props images (x # xs) = (op_ok images x \<and> ops_ok props (step props images x) xs)"

text \<open>
  The state of a collection the manager maintains: ids are pairwise different, and one
  entry is featured unless the collection is empty.
\<close>

definition collection_ok :: "MediaItem list \<Rightarrow> bool" where
  "collection_ok images \<longleftrightarrow>
     distinct (map item_id images) \<and> featured_count images = (if images = [] then 0 else 1)"

section \<open>The three buckets partition the batch\<close>

lemma loop_length:
  "length (validFiles (validateFiles_loop mx al ex fs pr r))
     + length (duplicates (validateFiles_loop mx al ex fs pr r))
     + length (invalid (validateFiles_loop mx al ex fs pr r))
   = length (validFiles r) + length (duplicates r) + length (invalid r) + length fs"
  by (induction fs arbitrary: pr r) simp_all

lemma loop_names:
  "mset (map name (validFiles (validateFiles_loop mx al ex fs pr r)))
     + mset (duplicates (validateFiles_loop mx al ex fs pr r))
     + mset (map fst (invalid (validateFiles_loop mx al ex fs pr r)))
   = mset (map name (validFiles r)) + mset (duplicates r) + mset (map fst (invalid r))
     + mset (map name fs)"
  by (induction fs arbitrary: pr r) simp_all

lemma loop_step:
  "(\<exists>e. validateFiles_loop mx al ex (f # fs) pr r
         = validateFiles_loop mx al ex fs pr (r\<lparr>invalid := invalid r @ [e]\<rparr>))
   \<or> validateFiles_loop mx al ex (f # fs) pr r
         = validateFiles_loop mx al ex fs pr (r\<lparr>duplicates := duplicates r @ [name f]\<rparr>)
   \<or> validateFiles_loop mx al ex (f # fs) pr r
         = validateFiles_loop mx al ex fs (insert (createFileSignature f) pr)
             (r\<lparr>validFiles := validFiles r @ [f]\<rparr>)"
  by auto

lemma loop_valid_subseq:
  "\<exists>ys. validFiles (validateFiles_loop mx al ex fs pr r) = validFiles r @ ys \<and> subseq ys fs"
proof (induction fs arbitrary: pr r)
  case Nil
  then show ?case by simp
next
  case (Cons f fs)
  have "\<exists>pr' r' zs. validateFiles_loop mx al ex (f # fs) pr r = validateFiles_loop mx al ex fs pr' r'
          \<and> validFiles r' = validFiles r @ zs \<and> subseq zs [f]"
    using loop_step [of mx al ex f fs pr r]
  proof (elim disjE exE)
    fix e
    assume "validateFiles_loop mx al ex (f # fs) pr r
         = validateFiles_loop mx al ex fs pr (r\<lparr>invalid := invalid r @ [e]\<rparr>)"
    then show ?thesis
      by (intro exI [of _ pr] exI [of _ "r\<lparr>invalid := invalid r @ [e]\<rparr>"] exI [of _ "[]"]) simp
  next
    assume "validateFiles_loop mx al ex (f # fs) pr r
         = validateFiles_loop mx al ex fs pr (r\<lparr>duplicates := duplicates r @ [name f]\<rparr>)"
    then show ?thesis
      by (intro exI [of _ pr] exI [of _ "r\<lparr>duplicates := duplicates r @ [name f]\<rparr>"] exI [of _ "[]"]) simp
  next
    assume "validateFiles_loop mx al ex (f # fs) pr r
         = validateFiles_loop mx al ex fs (insert (createFileSignature f) pr)
             (r\<lparr>validFiles := validFiles r @ [f]\<rparr>)"
    then show ?thesis
      by (intro exI [of _ "insert (createFileSignature f) pr"]
            exI [of _ "r\<lparr>validFiles := validFiles r @ [f]\<rparr>"] exI [of _ "[f]"]) simp
  qed
  then obtain pr' r' zs where eq: "validateFiles_loop mx al ex (f # fs) pr r = validateFiles_loop mx al ex fs pr' r'"
    and v: "validFiles r' = validFiles r @ zs" and z: "subseq zs [f]"
    by blast
  from Cons.IH [of pr' r'] obtain ys
    where y: "validFiles (validateFiles_loop mx al ex fs pr' r') = validFiles r' @ ys" "subseq ys fs"
    by blast
  from z y(2) have "subseq (zs @ ys) ([f] @ fs)"
    by (rule list_emb_append_mono)
  with eq v y(1) show ?case
    by (intro exI [of _ "zs @ ys"]) simp
qed

lemma loop_invalid:
  "invalid (validateFiles_loop mx al ex fs pr r)
   = invalid r @ concat (map (\<lambda>f.
        if fsize f > mx * 1024 * 1024 then [(name f, SizeExceeded mx)]
        else if \<not> list_ex (type_matches (ftype f)) al then [(name f, TypeNotAllowed)]
        else []) fs)"
  by (induction fs arbitrary: pr r) simp_all

lemma startsWith_prefix: "startsWith s p \<longleftrightarrow> prefix p s"
  by (induction s p rule: startsWith.induct) auto

subsection \<open>Evaluation on concrete inputs\<close>

lemma show_nat_small: "n < 10 \<Longrightarrow> show_nat n = [''0123456789'' ! n]"
  by (simp add: show_nat.simps)
lemma show_nat_big: "\<not> n < 10 \<Longrightarrow> show_nat n = show_nat (n div 10) @ [''0123456789'' ! (n mod 10)]"
  by (subst show_nat.simps) simp

lemmas validate_eval = validateFiles_def opt_maxFileSize_def opt_allowedTypes_def
     opt_existingFiles_def default_allowedTypes_def type_matches_def split_head_def empty_result_def
     createFileSignature_def show_nat_small show_nat_big show_int_def

text \<open>
  C3. Whatever the batch and the options, every candidate goes into exactly one of the
  three buckets: the bucket sizes add up to the size of the batch, the names in the three
  buckets are, counted with repetitions, exactly the names of the batch, and
  \<open>validFiles\<close> is a subsequence of the batch.
\<close>

theorem validateFiles_partition:
  "length (validFiles (validateFiles files options))
     + length (duplicates (validateFiles files options))
     + length (invalid (validateFiles files options)) = length files
   \<and> mset (map name (validFiles (validateFiles files options)))
     + mset (duplicates (validateFiles files options))
     + mset (map fst (invalid (validateFiles files options))) = mset (map name files)
   \<and> subseq (validFiles (validateFiles files options)) files"
  using loop_length [of "opt_maxFileSize options" "opt_allowedTypes options"
      "set (map createFileSignature (opt_existingFiles options))" files "{}" empty_result]
    loop_names [of "opt_maxFileSize options" "opt_allowedTypes options"
      "set (map createFileSignature (opt_existingFiles options))" files "{}" empty_result]
    loop_valid_subseq [of "opt_maxFileSize options" "opt_allowedTypes options"
      "set (map createFileSignature (opt_existingFiles options))" files "{}" empty_result]
  by (auto simp: validateFiles_def empty_result_def)

theorem validateFiles_partition_witness:
  "length (validFiles (validateFiles
      [\<lparr>name = ''a.png'', fsize = 100, ftype = ''image/png'', lastModified = 17\<rparr>,
       \<lparr>name = ''b.mp4'', fsize = 100, ftype = ''video/mp4'', lastModified = 17\<rparr>,
       \<lparr>name = ''a.png'', fsize = 100, ftype = ''image/png'', lastModified = 17\<rparr>]
      \<lparr>maxFileSize = None, allowedTypes = None, existingFiles = None\<rparr>)) = 1
   \<and> duplicates (validateFiles
      [\<lparr>name = ''a.png'', fsize = 100, ftype = ''image/png'', lastModified = 17\<rparr>,
       \<lparr>name = ''b.mp4'', fsize = 100, ftype = ''video/mp4'', lastModified = 17\<rparr>,
       \<lparr>name = ''a.png'', fsize = 100, ftype = ''image/png'', lastModified = 17\<rparr>]
      \<lparr>maxFileSize = None, allowedTypes = None, existingFiles = None\<rparr>) = [''a.png'']
   \<and> invalid (validateFiles
      [\<lparr>name = ''a.png'', fsize = 100, ftype = ''image/png'', lastModified = 17\<rparr>,
       \<lparr>name = ''b.mp4'', fsize = 100, ftype = ''video/mp4'', lastModified = 17\<rparr>,
       \<lparr>name = ''a.png'', fsize = 100, ftype = ''image/png'', lastModified = 17\<rparr>]
      \<lparr>maxFileSize = None, allowedTypes = None, existingFiles = None\<rparr>)
     = [(''b.mp4'', TypeNotAllowed)]"
  using validateFiles_partition
    [of "[\<lparr>name = ''a.png'', fsize = 100, ftype = ''image/png'', lastModified = 17\<rparr>,
          \<lparr>name = ''b.mp4'', fsize = 100, ftype = ''video/mp4'', lastModified = 17\<rparr>,
          \<lparr>name = ''a.png'', fsize = 100, ftype = ''image/png'', lastModified = 17\<rparr>]"
        "\<lparr>maxFileSize = None, allowedTypes = None, existingFiles = None\<rparr>"]
  by (simp add: validate_eval)

section \<open>Validating the same file again\<close>

text \<open>
  C4, as the code has it. \<open>processedSignatures\<close> is created inside each call, so a
  call leaves nothing behind: a single file that passes the size and type checks and whose
  signature is not among the existing files is classified valid by every call with that
  unchanged existing set. It is classified as a duplicate once the accepted file has been
  added to the existing files, which is what the manager does between two uploads.
\<close>

theorem validateFiles_single_repeat:
  assumes "fsize f \<le> opt_maxFileSize options * 1024 * 1024"
    and "list_ex (type_matches (ftype f)) (opt_allowedTypes options)"
    and "createFileSignature f \<notin> set (map createFileSignature (opt_existingFiles options))"
  shows "validateFiles [f] options = \<lparr>validFiles = [f], duplicates = [], invalid = []\<rparr>
    \<and> validateFiles [f] (options\<lparr>existingFiles := Some (opt_existingFiles options @ [f])\<rparr>)
        = \<lparr>validFiles = [], duplicates = [name f], invalid = []\<rparr>"
  using assms
  by (simp add: validateFiles_def empty_result_def opt_maxFileSize_def opt_allowedTypes_def
      opt_existingFiles_def)

theorem validateFiles_single_repeat_witness:
  "validateFiles [\<lparr>name = ''a.png'', fsize = 100, ftype = ''image/png'', lastModified = 17\<rparr>]
      \<lparr>maxFileSize = None, allowedTypes = None, existingFiles = None\<rparr>
     = \<lparr>validFiles = [\<lparr>name = ''a.png'', fsize = 100, ftype = ''image/png'', lastModified = 17\<rparr>],
        duplicates = [], invalid = []\<rparr>
   \<and> validateFiles [\<lparr>name = ''a.png'', fsize = 100, ftype = ''image/png'', lastModified = 17\<rparr>]
      \<lparr>maxFileSize = None, allowedTypes = None,
        existingFiles = Some [\<lparr>name = ''a.png'', fsize = 100, ftype = ''image/png'', lastModified = 17\<rparr>]\<rparr>
     = \<lparr>validFiles = [], duplicates = [''a.png''], invalid = []\<rparr>"
  using validateFiles_single_repeat
    [of "\<lparr>name = ''a.png'', fsize = 100, ftype = ''image/png'', lastModified = 17\<rparr>"
        "\<lparr>maxFileSize = None, allowedTypes = None, existingFiles = None\<rparr>"]
  by (simp add: opt_maxFileSize_def opt_allowedTypes_def opt_existingFiles_def
      default_allowedTypes_def type_matches_def split_head_def)

theorem validateFiles_second_call_counterexample:
  "validateFiles [\<lparr>name = ''a.png'', fsize = 100, ftype = ''image/png'', lastModified = 17\<rparr>]
      \<lparr>maxFileSize = Some 5, allowedTypes = Some [''image/png''], existingFiles = Some []\<rparr>
     = \<lparr>validFiles = [\<lparr>name = ''a.png'', fsize = 100, ftype = ''image/png'', lastModified = 17\<rparr>],
        duplicates = [], invalid = []\<rparr>"
  by (simp add: validate_eval)

section \<open>The type check\<close>

text \<open>
  C5, as the code has it. A candidate within the size limit, at any place of a batch,
  contributes the entry \<open>(name, TypeNotAllowed)\<close> to \<open>invalid\<close> exactly when its
  type neither equals an allowed entry nor starts with the text before the first slash of
  an allowed entry; otherwise it contributes nothing to \<open>invalid\<close>.
\<close>

theorem type_check_iff:
  assumes "fsize f \<le> opt_maxFileSize options * 1024 * 1024"
  shows "invalid (validateFiles (pre @ f # post) options)
     = invalid (validateFiles pre options)
       @ (if \<exists>t \<in> set (opt_allowedTypes options).
               ftype f = t \<or> prefix (takeWhile (\<lambda>c. c \<noteq> CHR ''/'') t) (ftype f)
          then [] else [(name f, TypeNotAllowed)])
       @ invalid (validateFiles post options)"
proof -
  have "list_ex (type_matches (ftype f)) (opt_allowedTypes options)
     \<longleftrightarrow> (\<exists>t \<in> set (opt_allowedTypes options).
               ftype f = t \<or> prefix (takeWhile (\<lambda>c. c \<noteq> CHR ''/'') t) (ftype f))"
    by (auto simp: list_ex_iff type_matches_def split_head_def startsWith_prefix)
  with assms show ?thesis
    by (simp add: validateFiles_def loop_invalid empty_result_def)
qed

theorem type_check_iff_witness:
  "invalid (validateFiles
      [\<lparr>name = ''a.png'', fsize = 100, ftype = ''image/png'', lastModified = 17\<rparr>,
       \<lparr>name = ''b.mp4'', fsize = 100, ftype = ''video/mp4'', lastModified = 17\<rparr>,
       \<lparr>name = ''c.png'', fsize = 6291456, ftype = ''image/png'', lastModified = 17\<rparr>]
      \<lparr>maxFileSize = None, allowedTypes = None, existingFiles = None\<rparr>)
   = [(''b.mp4'', TypeNotAllowed), (''c.png'', SizeExceeded 5)]"
  using type_check_iff
    [of "\<lparr>name = ''b.mp4'', fsize = 100, ftype = ''video/mp4'', lastModified = 17\<rparr>"
        "\<lparr>maxFileSize = None, allowedTypes = None, existingFiles = None\<rparr>"
        "[\<lparr>name = ''a.png'', fsize = 100, ftype = ''image/png'', lastModified = 17\<rparr>]"
        "[\<lparr>name = ''c.png'', fsize = 6291456, ftype = ''image/png'', lastModified = 17\<rparr>]"]
  by (simp add: validate_eval)

theorem type_check_prefix_counterexample:
  "fsize \<lparr>name = ''d.x'', fsize = 1, ftype = ''imagery/x'', lastModified = 17\<rparr> \<le> 5 * 1024 * 1024
   \<and> ''imagery/x'' \<notin> set default_allowedTypes
   \<and> split_head ''imagery/x'' \<notin> set (map split_head default_allowedTypes)
   \<and> validateFiles [\<lparr>name = ''d.x'', fsize = 1, ftype = ''imagery/x'', lastModified = 17\<rparr>]
        \<lparr>maxFileSize = None, allowedTypes = None, existingFiles = None\<rparr>
      = \<lparr>validFiles = [\<lparr>name = ''d.x'', fsize = 1, ftype = ''imagery/x'', lastModified = 17\<rparr>],
         duplicates = [], invalid = []\<rparr>"
  by (simp add: validate_eval)

section \<open>Hashing never fails\<close>

text \<open>
  C8. \<open>generateFileHash\<close> always resolves to a string: when reading the bytes or
  digesting them fails, the result is the file's own signature, and when both succeed it
  is the hex digest.
\<close>

theorem generateFileHash_fallback:
  "(\<exists>s. generateFileHash arrayBuffer digest f = Inr s)
   \<and> (\<forall>e. arrayBuffer f = Inl e \<longrightarrow>
          generateFileHash arrayBuffer digest f = Inr (createFileSignature f))
   \<and> (\<forall>buffer e. arrayBuffer f = Inr buffer \<and> digest buffer = Inl e \<longrightarrow>
          generateFileHash arrayBuffer digest f = Inr (createFileSignature f))
   \<and> (\<forall>buffer h. arrayBuffer f = Inr buffer \<and> digest buffer = Inr h \<longrightarrow>
          generateFileHash arrayBuffer digest f
            = Inr (concat (map (\<lambda>b. padStart2 (toString16 (unat b))) h)))"
  by (auto simp: generateFileHash_def generateFileHash_try_def split: sum.splits)

theorem generateFileHash_fallback_witness:
  "generateFileHash (\<lambda>f. Inr [1, 2]) (\<lambda>b. Inl DigestFailed)
      \<lparr>name = ''a.png'', fsize = 100, ftype = ''image/png'', lastModified = 17\<rparr>
   = Inr ''a.png|100|image/png|17''"
  using generateFileHash_fallback
    [of "\<lambda>f. Inr [1, 2]" "\<lambda>b. Inl DigestFailed"
        "\<lparr>name = ''a.png'', fsize = 100, ftype = ''image/png'', lastModified = 17\<rparr>"]
  by (simp add: createFileSignature_def show_nat_small show_nat_big show_int_def)

section \<open>File extensions\<close>

lemma lastIndexOf_absent: "c \<notin> set s \<Longrightarrow> lastIndexOf s c = - 1"
  by (induction s) auto

lemma lastIndexOf_last: "c \<notin> set ext \<Longrightarrow> lastIndexOf (pre @ c # ext) c = int (length pre)"
  by (induction pre) (auto simp: lastIndexOf_absent)

text \<open>
  C9, as the code has it, for names shorter than \<open>2^32\<close> characters. A name without a
  dot has the empty extension. A name that contains a dot is \<open>pre @ ''.'' @ ext\<close> with
  no dot in \<open>ext\<close>: its extension is \<open>ext\<close> when \<open>pre\<close> is not empty, and the empty
  string when the last dot is the first character.
\<close>

theorem getFileExtension_cases:
  "(length filename < 2 ^ 32 \<and> CHR ''.'' \<notin> set filename \<longrightarrow> getFileExtension filename = [])
   \<and> (length (pre @ CHR ''.'' # ext) < 2 ^ 32 \<and> CHR ''.'' \<notin> set ext \<longrightarrow>
        getFileExtension (pre @ CHR ''.'' # ext) = (if pre = [] then [] else ext))"
proof (intro conjI impI)
  assume a: "length filename < 2 ^ 32 \<and> CHR ''.'' \<notin> set filename"
  then have "lastIndexOf filename CHR ''.'' = - 1" by (simp add: lastIndexOf_absent)
  with a show "getFileExtension filename = []"
    by (simp add: getFileExtension_def toUint32_def)
next
  assume a: "length (pre @ CHR ''.'' # ext) < 2 ^ 32 \<and> CHR ''.'' \<notin> set ext"
  then have i: "lastIndexOf (pre @ CHR ''.'' # ext) CHR ''.'' = int (length pre)"
    by (simp add: lastIndexOf_last)
  show "getFileExtension (pre @ CHR ''.'' # ext) = (if pre = [] then [] else ext)"
  proof (cases "pre = []")
    case True
    with a i show ?thesis
      by (simp add: getFileExtension_def toUint32_def)
  next
    case False
    with a have "0 < length pre" "int (length pre) - 1 < 2 ^ 32" by auto
    then have "toUint32 (int (length pre) - 1) = length pre - 1"
      by (simp add: toUint32_def nat_diff_distrib')
    with i False show ?thesis
      by (simp add: getFileExtension_def)
  qed
qed

theorem getFileExtension_cases_witness:
  "getFileExtension ''Makefile'' = '''' \<and> getFileExtension ''.gitignore'' = ''''
   \<and> getFileExtension ''photo.final.png'' = ''png''"
  using getFileExtension_cases [of "''Makefile''" "''photo.final''" "''png''"]
    getFileExtension_cases [of "''Makefile''" "[]" "''gitignore''"]
  by simp

theorem getFileExtension_leading_dot_counterexample:
  "CHR ''.'' \<in> set ''.gitignore'' \<and> ''.gitignore'' = ''.'' @ ''gitignore''
   \<and> CHR ''.'' \<notin> set ''gitignore'' \<and> getFileExtension ''.gitignore'' \<noteq> ''gitignore''"
  by (simp add: getFileExtension_def toUint32_def)

section \<open>Duplicate groups of an array\<close>

lemma map_of_map_set: "map_of (map_set m k v) = (map_of m)(k \<mapsto> v)"
  by (induction m) (auto simp: fun_eq_iff)

lemma map_set_new: "k \<notin> set (map fst m) \<Longrightarrow> map_set m k v = m @ [(k, v)]"
  by (induction m) auto

lemma keys_map_set:
  "map fst (map_set m k v) = (if k \<in> set (map fst m) then map fst m else map fst m @ [k])"
  by (induction m) (auto simp: rev_image_eqI)

lemma distinct_map_set: "distinct (map fst m) \<Longrightarrow> distinct (map fst (map_set m k v))"
  by (simp add: keys_map_set)

lemma signatureMap_add_distinct:
  "distinct (map fst m) \<Longrightarrow> distinct (map fst (signatureMap_add m f))"
  by (simp add: signatureMap_add_def distinct_map_set)

lemma signatureMap_add_lookup:
  "map_of (signatureMap_add m f) k =
     (if createFileSignature f = k
      then Some ((case map_of m k of None \<Rightarrow> [] | Some l \<Rightarrow> l) @ [f])
      else map_of m k)"
  by (simp add: signatureMap_add_def map_of_map_set)

lemma signatureMap_distinct:
  "distinct (map fst m) \<Longrightarrow> distinct (map fst (foldl signatureMap_add m files))"
  by (induction files arbitrary: m) (simp_all add: signatureMap_add_distinct)

lemma signatureMap_lookup:
  "map_of (foldl signatureMap_add m files) k =
     (if map_of m k = None \<and> filter (\<lambda>f. createFileSignature f = k) files = [] then None
      else Some ((case map_of m k of None \<Rightarrow> [] | Some l \<Rightarrow> l)
                 @ filter (\<lambda>f. createFileSignature f = k) files))"
proof (induction files arbitrary: m)
  case Nil
  then show ?case by (cases "map_of m k") simp_all
next
  case (Cons f fs)
  show ?case
    by (cases "map_of m k") (simp_all add: Cons.IH signatureMap_add_lookup)
qed

lemma duplicates_fold:
  "distinct (map fst m) \<Longrightarrow> set (map fst d) \<inter> set (map fst m) = {} \<Longrightarrow>
   foldl duplicates_add d m = d @ filter (\<lambda>entry. 1 < length (snd entry)) m"
proof (induction m arbitrary: d)
  case Nil
  then show ?case by simp
next
  case (Cons e m)
  from Cons.prems have new: "fst e \<notin> set (map fst d)" by auto
  show ?case
  proof (cases "1 < length (snd e)")
    case True
    then have d: "duplicates_add d e = d @ [e]"
      using new by (simp add: duplicates_add_def map_set_new)
    from Cons.prems have "set (map fst (d @ [e])) \<inter> set (map fst m) = {}" by auto
    with Cons.prems Cons.IH [of "d @ [e]"] d True show ?thesis by simp
  next
    case False
    then have d: "duplicates_add d e = d" by (simp add: duplicates_add_def)
    from Cons.prems have "set (map fst d) \<inter> set (map fst m) = {}" by auto
    with Cons.prems Cons.IH [of d] d False show ?thesis by simp
  qed
qed

lemma findDuplicatesInArray_filter:
  "findDuplicatesInArray files
   = filter (\<lambda>entry. 1 < length (snd entry)) (foldl signatureMap_add [] files)"
  using duplicates_fold [of "foldl signatureMap_add [] files" "[]"]
    signatureMap_distinct [of "[]" files]
  by (simp add: findDuplicatesInArray_def)

text \<open>
  C10. The keys of the returned map are pairwise different, and \<open>(k, v)\<close> is one of
  its entries exactly when \<open>v\<close> is the list of all input files with signature \<open>k\<close>, in
  input order, and there are at least two of them. So every key is a signature shared by
  at least two input files, its value is exactly those files, and a file whose signature
  no other input file has is in no value.
\<close>

theorem findDuplicatesInArray_entries:
  "distinct (map fst (findDuplicatesInArray files))
   \<and> ((k, v) \<in> set (findDuplicatesInArray files)
        \<longleftrightarrow> v = filter (\<lambda>f. createFileSignature f = k) files \<and> 1 < length v)"
proof -
  let ?m = "foldl signatureMap_add [] files"
  have d: "distinct (map fst ?m)"
    using signatureMap_distinct [of "[]" files] by simp
  then have "(k, v) \<in> set ?m \<longleftrightarrow> map_of ?m k = Some v"
    by simp
  also have "\<dots> \<longleftrightarrow> v = filter (\<lambda>f. createFileSignature f = k) files \<and> v \<noteq> []"
    by (auto simp: signatureMap_lookup)
  finally have m: "(k, v) \<in> set ?m \<longleftrightarrow> v = filter (\<lambda>f. createFileSignature f = k) files \<and> v \<noteq> []" .
  have "distinct (map fst (findDuplicatesInArray files))"
    using d by (simp add: findDuplicatesInArray_filter distinct_map_filter)
  moreover have "(k, v) \<in> set (findDuplicatesInArray files)
        \<longleftrightarrow> v = filter (\<lambda>f. createFileSignature f = k) files \<and> 1 < length v"
    using m by (auto simp: findDuplicatesInArray_filter)
  ultimately show ?thesis by simp
qed

theorem findDuplicatesInArray_entries_witness:
  "(''a.png|100|image/png|17'',
     [\<lparr>name = ''a.png'', fsize = 100, ftype = ''image/png'', lastModified = 17\<rparr>,
      \<lparr>name = ''a.png'', fsize = 100, ftype = ''image/png'', lastModified = 17\<rparr>])
    \<in> set (findDuplicatesInArray
        [\<lparr>name = ''a.png'', fsize = 100, ftype = ''image/png'', lastModified = 17\<rparr>,
         \<lparr>name = ''b.png'', fsize = 100, ftype = ''image/png'', lastModified = 17\<rparr>,
         \<lparr>name = ''a.png'', fsize = 100, ftype = ''image/png'', lastModified = 17\<rparr>])
   \<and> length (findDuplicatesInArray
        [\<lparr>name = ''a.png'', fsize = 100, ftype = ''image/png'', lastModified = 17\<rparr>,
         \<lparr>name = ''b.png'', fsize = 100, ftype = ''image/png'', lastModified = 17\<rparr>,
         \<lparr>name = ''a.png'', fsize = 100, ftype = ''image/png'', lastModified = 17\<rparr>]) = 1"
  using findDuplicatesInArray_entries
    [of "[\<lparr>name = ''a.png'', fsize = 100, ftype = ''image/png'', lastModified = 17\<rparr>,
          \<lparr>name = ''b.png'', fsize = 100, ftype = ''image/png'', lastModified = 17\<rparr>,
          \<lparr>name = ''a.png'', fsize = 100, ftype = ''image/png'', lastModified = 17\<rparr>]"
        "''a.png|100|image/png|17''"
        "[\<lparr>name = ''a.png'', fsize = 100, ftype = ''image/png'', lastModified = 17\<rparr>,
          \<lparr>name = ''a.png'', fsize = 100, ftype = ''image/png'', lastModified = 17\<rparr>]"]
  by (simp add: findDuplicatesInArray_def signatureMap_add_def duplicates_add_def
      createFileSignature_def show_nat_small show_nat_big show_int_def)

section \<open>Removing an entry\<close>

lemma find_by_id:
  "distinct (map item_id images) \<Longrightarrow> e \<in> set images \<Longrightarrow>
   find (\<lambda>img. item_id img = item_id e) images = Some e"
  by (induction images) (auto simp: rev_image_eqI)

lemma removeImage_ids:
  "map item_id (removeImage images imageId) = filter (\<lambda>i. i \<noteq> imageId) (map item_id images)"
proof -
  have "map item_id (xs[0 := (xs ! 0)\<lparr>isFeatured := True\<rparr>]) = map item_id xs" for xs :: "MediaItem list"
    by (cases xs) simp_all
  then show ?thesis
    by (simp add: removeImage_def Let_def filter_map comp_def)
qed

text \<open>
  C7. Let \<open>e\<close> be the entry that \<open>removeImage\<close> looks up for the id (the entry with
  that id; \<open>find_by_id\<close> says it is the only one when ids are unique). The result keeps
  the ids of all other entries in collection order and none with the removed id. When
  \<open>e\<close> is featured and \<open>r # rs\<close> are the remaining entries, the result is \<open>r\<close> made
  featured followed by \<open>rs\<close> unchanged; when \<open>e\<close> is not featured, the result is the
  remaining entries unchanged.
\<close>

theorem removeImage_promotes_first:
  assumes "find (\<lambda>img. item_id img = imageId) images = Some e"
  shows "map item_id (removeImage images imageId) = filter (\<lambda>i. i \<noteq> imageId) (map item_id images)
    \<and> (isFeatured e \<and> filter (\<lambda>img. item_id img \<noteq> imageId) images = r # rs \<longrightarrow>
         removeImage images imageId = r\<lparr>isFeatured := True\<rparr> # rs)
    \<and> (\<not> isFeatured e \<longrightarrow>
         removeImage images imageId = filter (\<lambda>img. item_id img \<noteq> imageId) images)"
  using assms by (simp add: removeImage_ids) (simp add: removeImage_def Let_def)

theorem removeImage_promotes_first_witness:
  "removeImage
     [\<lparr>item_id = ''a'', url = ''u1'', item_file = None, isFeatured = True, mediaType = ImageKind\<rparr>,
      \<lparr>item_id = ''b'', url = ''u2'', item_file = None, isFeatured = False, mediaType = ImageKind\<rparr>,
      \<lparr>item_id = ''c'', url = ''u3'', item_file = None, isFeatured = False, mediaType = ImageKind\<rparr>]
     ''a''
   = [\<lparr>item_id = ''b'', url = ''u2'', item_file = None, isFeatured = True, mediaType = ImageKind\<rparr>,
      \<lparr>item_id = ''c'', url = ''u3'', item_file = None, isFeatured = False, mediaType = ImageKind\<rparr>]"
  using removeImage_promotes_first
    [of "''a''"
      "[\<lparr>item_id = ''a'', url = ''u1'', item_file = None, isFeatured = True, mediaType = ImageKind\<rparr>,
        \<lparr>item_id = ''b'', url = ''u2'', item_file = None, isFeatured = False, mediaType = ImageKind\<rparr>,
        \<lparr>item_id = ''c'', url = ''u3'', item_file = None, isFeatured = False, mediaType = ImageKind\<rparr>]"
      "\<lparr>item_id = ''a'', url = ''u1'', item_file = None, isFeatured = True, mediaType = ImageKind\<rparr>"
      "\<lparr>item_id = ''b'', url = ''u2'', item_file = None, isFeatured = False, mediaType = ImageKind\<rparr>"
      "[\<lparr>item_id = ''c'', url = ''u3'', item_file = None, isFeatured = False, mediaType = ImageKind\<rparr>]"]
  by simp

section \<open>Choosing the featured entry\<close>

lemma isFeatured_update_same:
  "(img\<lparr>isFeatured := b\<rparr> = img) \<longleftrightarrow> (isFeatured img = b)" for img :: MediaItem
  by (cases img) auto

lemma setFeaturedImage_ids: "map item_id (setFeaturedImage images imageId) = map item_id images"
  by (simp add: setFeaturedImage_def comp_def)

lemma setFeaturedImage_count:
  "featured_count (setFeaturedImage images imageId)
   = length (filter (\<lambda>i. i = imageId) (map item_id images))"
  by (simp add: featured_count_def setFeaturedImage_def filter_map comp_def)

lemma count_absent: "x \<notin> set xs \<Longrightarrow> filter (\<lambda>i. i = x) xs = []"
  by (induction xs) auto

lemma count_distinct_member:
  "distinct xs \<Longrightarrow> x \<in> set xs \<Longrightarrow> length (filter (\<lambda>i. i = x) xs) = 1"
  by (induction xs) (auto simp: count_absent)

text \<open>
  C2, as the code has it. \<open>setFeaturedImage\<close> changes nothing but the featured flags,
  and sets the flag of each entry to whether its id is the given one. When no entry has the
  id, every entry ends up unfeatured, so the collection is unchanged only if no entry was
  featured before; when an entry has the id and ids are unique, exactly one entry ends up
  featured.
\<close>

theorem setFeaturedImage_effect:
  "map (\<lambda>img. img\<lparr>isFeatured := False\<rparr>) (setFeaturedImage images imageId)
     = map (\<lambda>img. img\<lparr>isFeatured := False\<rparr>) images
   \<and> map isFeatured (setFeaturedImage images imageId) = map (\<lambda>img. item_id img = imageId) images
   \<and> (imageId \<notin> set (map item_id images) \<longrightarrow>
        featured_count (setFeaturedImage images imageId) = 0
        \<and> (setFeaturedImage images imageId = images \<longleftrightarrow> featured_count images = 0))
   \<and> (imageId \<in> set (map item_id images) \<and> distinct (map item_id images) \<longrightarrow>
        featured_count (setFeaturedImage images imageId) = 1)"
proof (intro conjI impI)
  show "map (\<lambda>img. img\<lparr>isFeatured := False\<rparr>) (setFeaturedImage images imageId)
     = map (\<lambda>img. img\<lparr>isFeatured := False\<rparr>) images"
    by (simp add: setFeaturedImage_def)
  show "map isFeatured (setFeaturedImage images imageId) = map (\<lambda>img. item_id img = imageId) images"
    by (simp add: setFeaturedImage_def)
next
  assume a: "imageId \<notin> set (map item_id images)"
  then show "featured_count (setFeaturedImage images imageId) = 0"
    by (simp add: setFeaturedImage_count count_absent)
  from a have "setFeaturedImage images imageId = map (\<lambda>img. img\<lparr>isFeatured := False\<rparr>) images"
    by (auto simp: setFeaturedImage_def image_iff)
  moreover have "map (\<lambda>img. img\<lparr>isFeatured := False\<rparr>) images = images
      \<longleftrightarrow> filter isFeatured images = []"
    by (induction images) (auto simp: isFeatured_update_same)
  ultimately show "setFeaturedImage images imageId = images \<longleftrightarrow> featured_count images = 0"
    by (simp add: featured_count_def)
next
  assume "imageId \<in> set (map item_id images) \<and> distinct (map item_id images)"
  then have "length (filter (\<lambda>i. i = imageId) (map item_id images)) = 1"
    by (intro count_distinct_member) simp_all
  then show "featured_count (setFeaturedImage images imageId) = 1"
    by (simp only: setFeaturedImage_count)
qed

theorem setFeaturedImage_effect_witness:
  "setFeaturedImage
     [\<lparr>item_id = ''a'', url = ''u1'', item_file = None, isFeatured = True, mediaType = ImageKind\<rparr>,
      \<lparr>item_id = ''b'', url = ''u2'', item_file = None, isFeatured = False, mediaType = ImageKind\<rparr>]
     ''b''
   = [\<lparr>item_id = ''a'', url = ''u1'', item_file = None, isFeatured = False, mediaType = ImageKind\<rparr>,
      \<lparr>item_id = ''b'', url = ''u2'', item_file = None, isFeatured = True, mediaType = ImageKind\<rparr>]
   \<and> featured_count (setFeaturedImage
     [\<lparr>item_id = ''a'', url = ''u1'', item_file = None, isFeatured = True, mediaType = ImageKind\<rparr>,
      \<lparr>item_id = ''b'', url = ''u2'', item_file = None, isFeatured = False, mediaType = ImageKind\<rparr>]
     ''zz'') = 0"
  using setFeaturedImage_effect
    [where imageId = "''b''" and images =
      "[\<lparr>item_id = ''a'', url = ''u1'', item_file = None, isFeatured = True, mediaType = ImageKind\<rparr>,
        \<lparr>item_id = ''b'', url = ''u2'', item_file = None, isFeatured = False, mediaType = ImageKind\<rparr>]"]
    setFeaturedImage_effect
    [where imageId = "''zz''" and images =
      "[\<lparr>item_id = ''a'', url = ''u1'', item_file = None, isFeatured = True, mediaType = ImageKind\<rparr>,
        \<lparr>item_id = ''b'', url = ''u2'', item_file = None, isFeatured = False, mediaType = ImageKind\<rparr>]"]
  by (simp add: setFeaturedImage_def)

theorem setFeaturedImage_absent_counterexample:
  "''zz'' \<notin> set (map item_id
     [\<lparr>item_id = ''a'', url = ''u1'', item_file = None, isFeatured = True, mediaType = ImageKind\<rparr>])
   \<and> setFeaturedImage
     [\<lparr>item_id = ''a'', url = ''u1'', item_file = None, isFeatured = True, mediaType = ImageKind\<rparr>] ''zz''
     \<noteq> [\<lparr>item_id = ''a'', url = ''u1'', item_file = None, isFeatured = True, mediaType = ImageKind\<rparr>]"
  by (simp add: setFeaturedImage_def)

section \<open>Capacity of the collection\<close>

lemmas manager_eval = handleFileSelect_def slice0_def default_props_def manager_options_def
  existing_files_def new_images_def new_image_def setFeaturedImage_def removeImage_def run_def
  Let_def featured_count_def

text \<open>
  A collection longer than \<open>maxImages\<close> has a negative \<open>remainingSlots\<close>, and
  \<open>slice(0, remainingSlots)\<close> then drops that many candidates from the end of the batch
  instead of all of them.
\<close>

lemma handleFileSelect_overfull:
  assumes "files \<noteq> []" and "maxImages props < int (length images)"
  shows "validated (handleFileSelect props env images False (Some files))
     = (if int (length files) \<le> int (length images) - maxImages props then None
        else Some (take (length files - nat (int (length images) - maxImages props)) files))"
proof -
  have "nat (int (length files) + (maxImages props - int (length images)))
        = length files - nat (int (length images) - maxImages props)"
    using assms(2) by linarith
  with assms(2) have "slice0 files (maxImages props - int (length images))
        = take (length files - nat (int (length images) - maxImages props)) files"
    by (simp add: slice0_def)
  then show ?thesis
    using assms by (auto simp: handleFileSelect_def Let_def)
qed

text \<open>
  C6, as the code has it. A null or empty batch returns silently, with no notification
  and no call of the validator, whatever the capacity and whether or not a call is in
  flight. A batch that is not empty, given while a call is in flight, is rejected with the
  wait notice. A batch that is not empty, given while no call is in flight to a collection
  with \<open>k \<ge> 0\<close> free slots: when \<open>k = 0\<close> the call reports the limit error and calls
  neither the validator nor \<open>onChange\<close>; when \<open>k > 0\<close> the validator gets exactly the
  first \<open>min k (length files)\<close> candidates in input order, and the whole outcome is the
  one the call has for that prefix alone, so the other candidates leave no trace.
\<close>

theorem handleFileSelect_capacity:
  "handleFileSelect props env images processing None
      = \<lparr>validated = None, toasts = [], onChange = None, processingAfter = processing\<rparr>
   \<and> handleFileSelect props env images processing (Some [])
      = \<lparr>validated = None, toasts = [], onChange = None, processingAfter = processing\<rparr>
   \<and> (files \<noteq> [] \<longrightarrow>
        handleFileSelect props env images True (Some files)
          = \<lparr>validated = None, toasts = [InfoWait], onChange = None, processingAfter = True\<rparr>)
   \<and> (files \<noteq> [] \<and> maxImages props = int (length images) \<longrightarrow>
        handleFileSelect props env images False (Some files)
          = \<lparr>validated = None, toasts = [ErrorLimit (maxImages props)], onChange = None,
             processingAfter = False\<rparr>)
   \<and> (files \<noteq> [] \<and> int (length images) < maxImages props \<longrightarrow>
        validated (handleFileSelect props env images False (Some files))
          = Some (take (min (nat (maxImages props - int (length images))) (length files)) files)
        \<and> handleFileSelect props env images False (Some files)
          = handleFileSelect props env images False
              (Some (take (nat (maxImages props - int (length images))) files)))"
proof (intro conjI impI)
  show "handleFileSelect props env images processing None
      = \<lparr>validated = None, toasts = [], onChange = None, processingAfter = processing\<rparr>"
    "handleFileSelect props env images processing (Some [])
      = \<lparr>validated = None, toasts = [], onChange = None, processingAfter = processing\<rparr>"
    by (simp_all add: handleFileSelect_def)
next
  assume "files \<noteq> []"
  then show "handleFileSelect props env images True (Some files)
          = \<lparr>validated = None, toasts = [InfoWait], onChange = None, processingAfter = True\<rparr>"
    by (simp add: handleFileSelect_def)
next
  assume "files \<noteq> [] \<and> maxImages props = int (length images)"
  then show "handleFileSelect props env images False (Some files)
          = \<lparr>validated = None, toasts = [ErrorLimit (maxImages props)], onChange = None,
             processingAfter = False\<rparr>"
    by (simp add: handleFileSelect_def slice0_def)
next
  assume a: "files \<noteq> [] \<and> int (length images) < maxImages props"
  define k where "k = nat (maxImages props - int (length images))"
  with a have k: "0 < k" "slice0 files (maxImages props - int (length images)) = take k files"
    by (simp_all add: slice0_def)
  from k(1) a have ne: "take k files \<noteq> []" by (cases files) simp_all
  have tt: "slice0 (take k files) (maxImages props - int (length images)) = take k files"
    using a by (simp add: slice0_def k_def)
  have mn: "take (min k (length files)) files = take k files"
    by (simp add: min_def)
  show "validated (handleFileSelect props env images False (Some files))
              = Some (take (min (nat (maxImages props - int (length images))) (length files)) files)"
    using k ne a by (simp add: handleFileSelect_def Let_def k_def [symmetric] mn)
  show "handleFileSelect props env images False (Some files)
              = handleFileSelect props env images False
                  (Some (take (nat (maxImages props - int (length images))) files))"
    using k ne tt a by (simp add: handleFileSelect_def Let_def k_def [symmetric])
qed

theorem handleFileSelect_capacity_witness:
  "validated (handleFileSelect \<lparr>maxImages = 2, maxFileSizeMB = 5\<rparr>
      \<lparr>uuidv4 = show_nat, createObjectURL = show_nat\<rparr> [] False
      (Some [\<lparr>name = ''a.png'', fsize = 1, ftype = ''image/png'', lastModified = 17\<rparr>,
             \<lparr>name = ''b.png'', fsize = 2, ftype = ''image/png'', lastModified = 17\<rparr>,
             \<lparr>name = ''c.png'', fsize = 3, ftype = ''image/png'', lastModified = 17\<rparr>,
             \<lparr>name = ''d.png'', fsize = 4, ftype = ''image/png'', lastModified = 17\<rparr>,
             \<lparr>name = ''e.png'', fsize = 5, ftype = ''image/png'', lastModified = 17\<rparr>]))
   = Some [\<lparr>name = ''a.png'', fsize = 1, ftype = ''image/png'', lastModified = 17\<rparr>,
           \<lparr>name = ''b.png'', fsize = 2, ftype = ''image/png'', lastModified = 17\<rparr>]
   \<and> toasts (handleFileSelect \<lparr>maxImages = 0, maxFileSizeMB = 5\<rparr>
      \<lparr>uuidv4 = show_nat, createObjectURL = show_nat\<rparr> [] False
      (Some [\<lparr>name = ''a.png'', fsize = 1, ftype = ''image/png'', lastModified = 17\<rparr>]))
   = [ErrorLimit 0]
   \<and> toasts (handleFileSelect \<lparr>maxImages = 0, maxFileSizeMB = 5\<rparr>
      \<lparr>uuidv4 = show_nat, createObjectURL = show_nat\<rparr> [] True
      (Some [\<lparr>name = ''a.png'', fsize = 1, ftype = ''image/png'', lastModified = 17\<rparr>]))
   = [InfoWait]"
  using handleFileSelect_capacity
    [where files = "[\<lparr>name = ''a.png'', fsize = 1, ftype = ''image/png'', lastModified = 17\<rparr>,
          \<lparr>name = ''b.png'', fsize = 2, ftype = ''image/png'', lastModified = 17\<rparr>,
          \<lparr>name = ''c.png'', fsize = 3, ftype = ''image/png'', lastModified = 17\<rparr>,
          \<lparr>name = ''d.png'', fsize = 4, ftype = ''image/png'', lastModified = 17\<rparr>,
          \<lparr>name = ''e.png'', fsize = 5, ftype = ''image/png'', lastModified = 17\<rparr>]"
        and images = "[]" and props = "\<lparr>maxImages = 2, maxFileSizeMB = 5\<rparr>"
        and env = "\<lparr>uuidv4 = show_nat, createObjectURL = show_nat\<rparr>" and processing = False]
    handleFileSelect_capacity
    [where files = "[\<lparr>name = ''a.png'', fsize = 1, ftype = ''image/png'', lastModified = 17\<rparr>]"
        and images = "[]" and props = "\<lparr>maxImages = 0, maxFileSizeMB = 5\<rparr>"
        and env = "\<lparr>uuidv4 = show_nat, createObjectURL = show_nat\<rparr>" and processing = False]
  by (simp add: manager_eval validate_eval)

text \<open>
  Where the statement without these conditions fails: an empty batch at \<open>k = 0\<close> reports nothing; a
  batch given while a call is in flight at \<open>k = 0\<close> gets the wait notice, not the limit
  error; and with two entries where one is allowed (\<open>k = -1\<close>) a batch of two has its first
  file validated and added.
\<close>

theorem handleFileSelect_capacity_counterexample:
  "maxImages \<lparr>maxImages = 1, maxFileSizeMB = 5\<rparr>
     - int (length [\<lparr>item_id = ''a'', url = ''u1'', item_file = None, isFeatured = True,
                     mediaType = ImageKind\<rparr>]) = 0
   \<and> toasts (handleFileSelect \<lparr>maxImages = 1, maxFileSizeMB = 5\<rparr>
        \<lparr>uuidv4 = show_nat, createObjectURL = show_nat\<rparr>
        [\<lparr>item_id = ''a'', url = ''u1'', item_file = None, isFeatured = True, mediaType = ImageKind\<rparr>]
        False (Some [])) = []
   \<and> toasts (handleFileSelect \<lparr>maxImages = 1, maxFileSizeMB = 5\<rparr>
        \<lparr>uuidv4 = show_nat, createObjectURL = show_nat\<rparr>
        [\<lparr>item_id = ''a'', url = ''u1'', item_file = None, isFeatured = True, mediaType = ImageKind\<rparr>]
        True (Some [\<lparr>name = ''a.png'', fsize = 1, ftype = ''image/png'', lastModified = 17\<rparr>]))
      = [InfoWait]
   \<and> maxImages \<lparr>maxImages = 1, maxFileSizeMB = 5\<rparr>
     - int (length
        [\<lparr>item_id = ''a'', url = ''u1'', item_file = None, isFeatured = True, mediaType = ImageKind\<rparr>,
         \<lparr>item_id = ''b'', url = ''u2'', item_file = None, isFeatured = False, mediaType = ImageKind\<rparr>])
     = - 1
   \<and> handleFileSelect \<lparr>maxImages = 1, maxFileSizeMB = 5\<rparr>
        \<lparr>uuidv4 = show_nat, createObjectURL = show_nat\<rparr>
        [\<lparr>item_id = ''a'', url = ''u1'', item_file = None, isFeatured = True, mediaType = ImageKind\<rparr>,
         \<lparr>item_id = ''b'', url = ''u2'', item_file = None, isFeatured = False, mediaType = ImageKind\<rparr>]
        False
        (Some [\<lparr>name = ''a.png'', fsize = 1, ftype = ''image/png'', lastModified = 17\<rparr>,
               \<lparr>name = ''b.png'', fsize = 2, ftype = ''image/png'', lastModified = 17\<rparr>])
      = \<lparr>validated = Some [\<lparr>name = ''a.png'', fsize = 1, ftype = ''image/png'', lastModified = 17\<rparr>],
         toasts = [Success 1 1],
         onChange = Some
           [\<lparr>item_id = ''a'', url = ''u1'', item_file = None, isFeatured = True, mediaType = ImageKind\<rparr>,
            \<lparr>item_id = ''b'', url = ''u2'', item_file = None, isFeatured = False, mediaType = ImageKind\<rparr>,
            \<lparr>item_id = ''new-0'', url = ''0'',
              item_file = Some \<lparr>name = ''a.png'', fsize = 1, ftype = ''image/png'', lastModified = 17\<rparr>,
              isFeatured = False, mediaType = ImageKind\<rparr>],
         processingAfter = False\<rparr>"
  by (simp add: manager_eval validate_eval)

section \<open>One featured entry\<close>

lemma validFiles_length: "length (validFiles (validateFiles files options)) \<le> length files"
  using loop_length [of "opt_maxFileSize options" "opt_allowedTypes options"
      "set (map createFileSignature (opt_existingFiles options))" files "{}" empty_result]
  by (simp add: validateFiles_def empty_result_def)

lemma handleFileSelect_onChange:
  assumes "onChange (handleFileSelect props env images False (Some files)) = Some images'"
  shows "\<exists>valid. valid \<noteq> [] \<and> length valid \<le> length files
           \<and> images' = images @ new_images env images valid"
proof -
  define fta where "fta = slice0 files (maxImages props - int (length images))"
  define valid where "valid = validFiles (validateFiles fta (manager_options props images))"
  have "length fta \<le> length files"
    by (auto simp: fta_def slice0_def)
  with validFiles_length [of fta "manager_options props images"]
  have "length valid \<le> length files" by (simp add: valid_def)
  moreover from assms have "valid \<noteq> [] \<and> images' = images @ new_images env images valid"
    by (auto simp: handleFileSelect_def Let_def fta_def [symmetric] valid_def [symmetric]
        split: if_splits)
  ultimately show ?thesis by blast
qed

lemma new_images_ids_from:
  "map item_id (map (\<lambda>(index, f). new_image env images index f) (enumerate n vs))
   = map (\<lambda>i. ''new-'' @ uuidv4 env i) [n..<n + length vs]"
proof (induction vs arbitrary: n)
  case Nil
  then show ?case by simp
next
  case (Cons v vs)
  have "[n..<n + length (v # vs)] = n # [Suc n..<Suc n + length vs]"
    by (subst upt_rec) simp
  with Cons.IH [of "Suc n"] show ?case
    by (simp add: new_image_def)
qed

lemma new_images_ids:
  "map item_id (new_images env images valid)
   = map (\<lambda>i. ''new-'' @ uuidv4 env i) [0..<length valid]"
  using new_images_ids_from [of env images 0 valid] by (simp add: new_images_def)

lemma new_images_featured_tail:
  "0 < n \<Longrightarrow> filter isFeatured (map (\<lambda>(index, f). new_image env images index f) (enumerate n vs)) = []"
  by (induction vs arbitrary: n) (simp_all add: new_image_def)

lemma new_images_featured_count:
  "featured_count (new_images env images valid) = (if images = [] \<and> valid \<noteq> [] then 1 else 0)"
proof (cases valid)
  case Nil
  then show ?thesis by (simp add: featured_count_def new_images_def)
next
  case (Cons v vs)
  have t: "filter isFeatured (map (\<lambda>(index, f). new_image env images index f) (enumerate (Suc 0) vs)) = []"
    by (rule new_images_featured_tail) simp
  have "new_images env images valid
        = new_image env images 0 v # map (\<lambda>(index, f). new_image env images index f) (enumerate (Suc 0) vs)"
    by (simp add: Cons new_images_def)
  then have "featured_count (new_images env images valid)
        = (if isFeatured (new_image env images 0 v) then 1 else 0)"
    by (simp only: featured_count_def filter.simps t) simp
  with Cons show ?thesis by (simp add: new_image_def)
qed

lemma featured_count_append:
  "featured_count (xs @ ys) = featured_count xs + featured_count ys"
  by (simp add: featured_count_def)

lemma addFiles_ok:
  assumes ok: "collection_ok images" and op: "op_ok images (AddFiles env files)"
  shows "collection_ok (step props images (AddFiles env files))"
proof (cases "onChange (handleFileSelect props env images False (Some files))")
  case None
  with ok show ?thesis by simp
next
  case (Some images')
  then obtain valid where v: "valid \<noteq> []" "length valid \<le> length files"
    and eq: "images' = images @ new_images env images valid"
    using handleFileSelect_onChange by blast
  from v(2) have split: "[0..<length files] = [0..<length valid] @ [length valid..<length files]"
    by (metis le_add_diff_inverse upt_add_eq_append zero_le)
  from op have d: "distinct (map (uuidv4 env) [0..<length valid])"
    and fresh: "\<forall>i \<in> set [0..<length valid]. ''new-'' @ uuidv4 env i \<notin> set (map item_id images)"
    by (auto simp: split list_all_iff)
  have "distinct (map (\<lambda>i. ''new-'' @ uuidv4 env i) [0..<length valid])"
    using d by (simp add: distinct_map inj_on_def)
  moreover have "set (map item_id images) \<inter> set (map (\<lambda>i. ''new-'' @ uuidv4 env i) [0..<length valid]) = {}"
    using fresh by force
  ultimately have "distinct (map item_id images')"
    using ok by (simp add: eq new_images_ids collection_ok_def)
  moreover have "new_images env images valid \<noteq> []"
    using v(1) by (cases valid) (simp_all add: new_images_def)
  then have "featured_count images' = (if images' = [] then 0 else 1)"
    using ok v(1) by (simp add: eq featured_count_append new_images_featured_count collection_ok_def)
  ultimately show ?thesis using Some by (simp add: collection_ok_def)
qed

lemma setFeatured_ok:
  assumes "collection_ok images" and "imageId \<in> set (map item_id images)"
  shows "collection_ok (setFeaturedImage images imageId)"
proof -
  from assms have "length (filter (\<lambda>i. i = imageId) (map item_id images)) = 1"
    by (intro count_distinct_member) (simp_all add: collection_ok_def)
  then have "featured_count (setFeaturedImage images imageId) = 1"
    by (simp only: setFeaturedImage_count)
  moreover from assms(2) have "setFeaturedImage images imageId \<noteq> []"
    by (auto simp: setFeaturedImage_def)
  ultimately show ?thesis
    using assms(1) by (simp add: collection_ok_def setFeaturedImage_ids)
qed

lemma find_Some_member: "find P xs = Some x \<Longrightarrow> x \<in> set xs \<and> P x"
  by (induction xs) (auto split: if_splits)

lemma single_featured:
  assumes "featured_count images = 1" and "e \<in> set images" and "isFeatured e"
  shows "filter isFeatured images = [e]"
proof -
  from assms(1) obtain x where x: "filter isFeatured images = [x]"
    by (auto simp: featured_count_def length_Suc_conv)
  from assms(2,3) have "e \<in> set (filter isFeatured images)" by simp
  with x show ?thesis by simp
qed

lemma remove_ok:
  assumes ok: "collection_ok images"
  shows "collection_ok (removeImage images imageId)"
proof -
  let ?R = "filter (\<lambda>img. item_id img \<noteq> imageId) images"
  from ok have d: "distinct (map item_id (removeImage images imageId))"
    by (simp add: removeImage_ids collection_ok_def)
  have swap: "filter isFeatured ?R = filter (\<lambda>img. item_id img \<noteq> imageId) (filter isFeatured images)"
    by (simp add: conj_commute)
  show ?thesis
  proof (cases "find (\<lambda>img. item_id img = imageId) images")
    case None
    then have "?R = images"
      by (auto simp: find_None_iff filter_id_conv)
    with None ok d show ?thesis
      by (simp add: removeImage_def Let_def)
  next
    case (Some e)
    then have e: "e \<in> set images" "item_id e = imageId"
      using find_Some_member [of "\<lambda>img. item_id img = imageId" images e] by simp_all
    then have ne: "images \<noteq> []" by auto
    with ok have one: "featured_count images = 1" by (simp add: collection_ok_def)
    show ?thesis
    proof (cases "isFeatured e")
      case True
      with one e have "filter isFeatured images = [e]" by (simp add: single_featured)
      with e swap have none: "filter isFeatured ?R = []" by simp
      show ?thesis
      proof (cases ?R)
        case Nil
        with Some True d show ?thesis
          by (simp add: removeImage_def Let_def collection_ok_def featured_count_def)
      next
        case (Cons r rs)
        with none have "filter isFeatured rs = []" by (simp split: if_splits)
        moreover from Cons Some True have "removeImage images imageId = r\<lparr>isFeatured := True\<rparr> # rs"
          by (simp add: removeImage_def Let_def)
        ultimately show ?thesis
          using d by (simp add: collection_ok_def featured_count_def)
      qed
    next
      case False
      from one obtain x where x: "filter isFeatured images = [x]"
        by (auto simp: featured_count_def length_Suc_conv)
      then have "x \<in> set (filter isFeatured images)" by simp
      then have xi: "x \<in> set images" "isFeatured x" by simp_all
      with False have "x \<noteq> e" by auto
      moreover from ok have "inj_on item_id (set images)"
        by (simp add: collection_ok_def distinct_map)
      ultimately have "item_id x \<noteq> imageId"
        using xi(1) e by (auto simp: inj_on_def)
      with x swap have f: "filter isFeatured ?R = [x]" by simp
      have "?R \<noteq> []"
      proof
        assume a: "?R = []"
        have "filter isFeatured ?R = []" unfolding a by simp
        with f show False by simp
      qed
      moreover from Some False have "removeImage images imageId = ?R"
        by (simp add: removeImage_def Let_def)
      ultimately show ?thesis
        using d f by (simp add: collection_ok_def featured_count_def)
    qed
  qed
qed

lemma step_ok:
  assumes "collection_ok images" and "op_ok images x"
  shows "collection_ok (step props images x)"
proof (cases x)
  case (AddFiles env files)
  with assms show ?thesis by (simp only: addFiles_ok)
next
  case (Remove imageId)
  with assms show ?thesis by (simp add: remove_ok)
next
  case (SetFeatured imageId)
  with assms show ?thesis by (simp add: setFeatured_ok)
qed

lemma run_ok:
  "collection_ok images \<Longrightarrow> ops_ok props images ops \<Longrightarrow> collection_ok (run props images ops)"
  unfolding run_def
  by (induction ops arbitrary: images) (simp_all add: step_ok)

text \<open>
  C1, as the code has it. Start from a collection with pairwise different ids in which one
  entry is featured unless it is empty (the empty collection is one). Apply any sequence of
  \<open>addFiles\<close>, \<open>remove\<close> and \<open>setFeatured\<close> in which every \<open>addFiles\<close> generates ids
  that are new and every \<open>setFeatured\<close> names an entry of the collection at that moment.
  Then ids are still pairwise different, exactly one entry is featured when the result is
  not empty, and none when it is empty.
\<close>

theorem featured_invariant:
  assumes "distinct (map item_id images)"
    and "featured_count images = (if images = [] then 0 else 1)"
    and "ops_ok props images ops"
  shows "distinct (map item_id (run props images ops))
    \<and> featured_count (run props images ops) = (if run props images ops = [] then 0 else 1)"
  using run_ok [of images props ops] assms by (simp add: collection_ok_def)

theorem featured_invariant_witness:
  "run default_props []
     [AddFiles \<lparr>uuidv4 = show_nat, createObjectURL = show_nat\<rparr>
        [\<lparr>name = ''a.png'', fsize = 100, ftype = ''image/png'', lastModified = 17\<rparr>,
         \<lparr>name = ''b.png'', fsize = 200, ftype = ''image/png'', lastModified = 18\<rparr>],
      SetFeatured ''new-1'', Remove ''new-1'']
   = [\<lparr>item_id = ''new-0'', url = ''0'',
       item_file = Some \<lparr>name = ''a.png'', fsize = 100, ftype = ''image/png'', lastModified = 17\<rparr>,
       isFeatured = True, mediaType = ImageKind\<rparr>]
   \<and> featured_count (run default_props []
     [AddFiles \<lparr>uuidv4 = show_nat, createObjectURL = show_nat\<rparr>
        [\<lparr>name = ''a.png'', fsize = 100, ftype = ''image/png'', lastModified = 17\<rparr>,
         \<lparr>name = ''b.png'', fsize = 200, ftype = ''image/png'', lastModified = 18\<rparr>],
      SetFeatured ''new-1'', Remove ''new-1'']) = 1"
  using featured_invariant
    [of "[]" default_props
      "[AddFiles \<lparr>uuidv4 = show_nat, createObjectURL = show_nat\<rparr>
        [\<lparr>name = ''a.png'', fsize = 100, ftype = ''image/png'', lastModified = 17\<rparr>,
         \<lparr>name = ''b.png'', fsize = 200, ftype = ''image/png'', lastModified = 18\<rparr>],
      SetFeatured ''new-1'', Remove ''new-1'']"]
  by (simp add: manager_eval validate_eval upt_rec)

theorem featured_invariant_counterexample:
  "run default_props []
     [AddFiles \<lparr>uuidv4 = show_nat, createObjectURL = show_nat\<rparr>
        [\<lparr>name = ''a.png'', fsize = 100, ftype = ''image/png'', lastModified = 17\<rparr>],
      SetFeatured ''zz'']
   = [\<lparr>item_id = ''new-0'', url = ''0'',
       item_file = Some \<lparr>name = ''a.png'', fsize = 100, ftype = ''image/png'', lastModified = 17\<rparr>,
       isFeatured = False, mediaType = ImageKind\<rparr>]
   \<and> featured_count (run default_props []
     [AddFiles \<lparr>uuidv4 = show_nat, createObjectURL = show_nat\<rparr>
        [\<lparr>name = ''a.png'', fsize = 100, ftype = ''image/png'', lastModified = 17\<rparr>],
      SetFeatured ''zz'']) = 0"
  by (simp add: manager_eval validate_eval)

end
